theory Spec2Isabelle
  imports Main "HOL-Library.Word" "HOL-Library.Char_ord" "HOL-Library.List_Lexorder"
    "HOL-Library.Product_Lexorder" "HOL-Library.Multiset"
begin

section \<open>The image-sequence to video converter (video\_converter.py)\<close>

text \<open>
  The program is one function, \<open>create_video_from_images\<close>, that globs a folder,
  sorts the matches naturally, reads the first image for the frame size, opens a video writer
  and writes every readable image as one frame. Everything it does is an effect on the
  outside world (the console, the video writer), so the model returns, besides the outcome
  (normal return or the uncaught exception), the trace of the effects in the order they happen.
  The file system is a parameter: what \<open>glob.glob\<close> lists and what \<open>cv2.imread\<close> decodes.
\<close>

subsection \<open>Images\<close>

text \<open>
  A decoded image is the array \<open>cv2.imread\<close> returns: rows of pixels, each pixel its channel
  bytes; its \<open>shape\<close> is (height, width, layers).
\<close>

type_synonym pixel = "8 word list"
type_synonym image = "pixel list list"

definition height_of :: "image \<Rightarrow> nat" where
  "height_of img = length img"

definition width_of :: "image \<Rightarrow> nat" where
  "width_of img = (case img of [] \<Rightarrow> 0 | r # _ \<Rightarrow> length r)"

definition layers_of :: "image \<Rightarrow> nat" where
  "layers_of img = (case img of [] \<Rightarrow> 0 | [] # _ \<Rightarrow> 0 | (p # _) # _ \<Rightarrow> length p)"

definition shape :: "image \<Rightarrow> nat \<times> nat \<times> nat" where
  "shape img = (height_of img, width_of img, layers_of img)"

text \<open>
  What \<open>cv2.imread\<close> can return when it does not return \<open>None\<close>: a raster with at least one
  row and one column, all rows of the same length.
\<close>

definition raster :: "image \<Rightarrow> bool" where
  "raster img = (img \<noteq> [] \<and> 0 < width_of img \<and> list_all (\<lambda>r. length r = width_of img) img)"

text \<open>
  Modelled from the spec: \<open>cv2.rotate(img, cv2.ROTATE_90_COUNTERCLOCKWISE)\<close> belongs to the
  OpenCV library, the spec's "fixed 90 degrees counterclockwise rotation". Row \<open>i\<close> of the
  result is column \<open>width - 1 - i\<close> of the argument, read top to bottom.
\<close>

definition column :: "image \<Rightarrow> nat \<Rightarrow> pixel list" where
  "column img j = map (\<lambda>r. r ! j) img"

definition rotate_90_counterclockwise :: "image \<Rightarrow> image" where
  "rotate_90_counterclockwise img = rev (map (column img) [0..<width_of img])"

text \<open>
  \<open>cv2.rotate\<close> as the function calls it on what \<open>cv2.imread\<close> gave: \<open>None\<close> (an empty
  matrix for OpenCV) comes back as \<open>None\<close>, without an exception.
\<close>

definition cv2_rotate :: "image option \<Rightarrow> image option" where
  "cv2_rotate img = map_option rotate_90_counterclockwise img"

subsection \<open>Natural sort\<close>

text \<open>
  Modelled from the spec: \<open>natsorted\<close> belongs to the natsort library, the spec's "natural
  (human) sort: numeric substrings compare by numeric value, not lexical character order".
  A name is cut into its leading text and the following (digit run, text) pairs; digit runs
  are compared as numbers, texts as strings, position by position; the sort is stable.
\<close>

definition is_digit :: "char \<Rightarrow> bool" where
  "is_digit c = (CHR ''0'' \<le> c \<and> c \<le> CHR ''9'')"

definition digit_val :: "char \<Rightarrow> nat" where
  "digit_val c = of_char c - of_char (CHR ''0'')"

definition number_of :: "string \<Rightarrow> nat" where
  "number_of ds = foldl (\<lambda>n c. 10 * n + digit_val c) 0 ds"

fun chunk :: "char \<Rightarrow> string \<times> (string \<times> string) list \<Rightarrow> string \<times> (string \<times> string) list" where
  "chunk c (txt, runs) =
     (if \<not> is_digit c then (c # txt, runs)
      else (case (txt, runs) of
              ([], (ds, t) # rest) \<Rightarrow> ([], (c # ds, t) # rest)
            | _ \<Rightarrow> ([], ([c], txt) # runs)))"

definition chunks :: "string \<Rightarrow> string \<times> (string \<times> string) list" where
  "chunks s = foldr chunk s ([], [])"

definition natsort_key :: "string \<Rightarrow> string \<times> (nat \<times> string) list" where
  "natsort_key s = (case chunks s of (txt, runs) \<Rightarrow> (txt, map (\<lambda>(ds, t). (number_of ds, t)) runs))"

definition natsorted :: "string list \<Rightarrow> string list" where
  "natsorted paths = sort_key natsort_key paths"

subsection \<open>The outside world\<close>

text \<open>
  \<open>glob_glob\<close> is \<open>glob.glob\<close> on the file system of the run, \<open>imread\<close> is \<open>cv2.imread\<close>
  on it (\<open>None\<close> for a file that cannot be decoded). The file system does not change during
  a run: the first file is read twice, for the frame size and again in the loop.
\<close>

record env =
  glob_glob :: "string \<Rightarrow> string list"
  imread :: "string \<Rightarrow> image option"

text \<open>\<open>os.path.join\<close> of two components (posixpath).\<close>

definition os_path_join :: "string \<Rightarrow> string \<Rightarrow> string" where
  "os_path_join a b =
     (if b \<noteq> [] \<and> hd b = CHR ''/'' then b
      else if a = [] \<or> last a = CHR ''/'' then a @ b
      else a @ ''/'' @ b)"

text \<open>\<open>cv2.VideoWriter_fourcc\<close>: the four characters packed into one integer, first lowest.\<close>

definition VideoWriter_fourcc :: "string \<Rightarrow> int" where
  "VideoWriter_fourcc cs = foldr (\<lambda>c n. of_char c + 256 * n) cs 0"

text \<open>
  The console messages, one constructor for each \<open>print\<close> of the source with the values it
  formats (the percentage of the progress line is computed from the two numbers it shows).
\<close>

datatype message =
    NoImagesFound string string
  | Warning string
  | Processing nat nat
  | VideoSaved string

text \<open>
  The effects: a \<open>print\<close>, the creation of the \<open>cv2.VideoWriter\<close> (path, fourcc, fps,
  (width, height)), \<open>out.write\<close> of a frame, \<open>out.release\<close>.
\<close>

datatype event =
    Print message
  | VideoWriter string int int "nat \<times> nat"
  | Write image
  | Release

text \<open>
  The exception the function can raise by itself: \<open>first_image.shape\<close> on \<open>None\<close> raises
  \<open>AttributeError\<close>, with rotation on as with rotation off.
\<close>

datatype error = AttributeError

subsection \<open>create\_video\_from\_images\<close>

text \<open>
  The loop \<open>for i, image_path in enumerate(image_paths)\<close>; \<open>i\<close> is the index of the head of
  the remaining paths.
\<close>

fun add_images :: "env \<Rightarrow> bool \<Rightarrow> nat \<Rightarrow> nat \<Rightarrow> string list \<Rightarrow> event list" where
  "add_images e rotate_on total_images i [] = []"
| "add_images e rotate_on total_images i (image_path # rest) =
     (case imread e image_path of
        None \<Rightarrow> Print (Warning image_path) # add_images e rotate_on total_images (i + 1) rest
      | Some img \<Rightarrow>
          Write (if rotate_on then rotate_90_counterclockwise img else img)
          # (if (i + 1) mod 10 = 0 \<or> i + 1 = total_images
             then [Print (Processing (i + 1) total_images)] else [])
          @ add_images e rotate_on total_images (i + 1) rest)"

definition create_video_from_images ::
  "env \<Rightarrow> string \<Rightarrow> string \<Rightarrow> int \<Rightarrow> string \<Rightarrow> bool \<Rightarrow> (error + unit) \<times> event list" where
  "create_video_from_images e image_folder output_video_path fps img_pattern rotate_on =
     (let image_paths = glob_glob e (os_path_join image_folder img_pattern) in
      if image_paths = [] then (Inr (), [Print (NoImagesFound image_folder img_pattern)])
      else
        let image_paths = natsorted image_paths;
            first_image = imread e (image_paths ! 0);
            first_image = (if rotate_on then cv2_rotate first_image else first_image)
        in
        (case first_image of
           None \<Rightarrow> (Inl AttributeError, [])
         | Some first_image \<Rightarrow>
             let (height, width, layers) = shape first_image;
                 fourcc = VideoWriter_fourcc ''mp4v'';
                 total_images = length image_paths
             in (Inr (),
                 VideoWriter output_video_path fourcc fps (width, height)
                 # add_images e rotate_on total_images 0 image_paths
                 @ [Release, Print (VideoSaved output_video_path)])))"


subsection \<open>Reading a trace\<close>

definition frames_written :: "event list \<Rightarrow> image list" where
  "frames_written tr = concat (map (\<lambda>ev. case ev of Write img \<Rightarrow> [img] | _ \<Rightarrow> []) tr)"

definition warnings :: "event list \<Rightarrow> string list" where
  "warnings tr = concat (map (\<lambda>ev. case ev of Print (Warning p) \<Rightarrow> [p] | _ \<Rightarrow> []) tr)"

definition progress :: "event list \<Rightarrow> (nat \<times> nat) list" where
  "progress tr = concat (map (\<lambda>ev. case ev of Print (Processing k n) \<Rightarrow> [(k, n)] | _ \<Rightarrow> []) tr)"

definition writers :: "event list \<Rightarrow> (nat \<times> nat) list" where
  "writers tr = concat (map (\<lambda>ev. case ev of VideoWriter p c f d \<Rightarrow> [d] | _ \<Rightarrow> []) tr)"

text \<open>The matched files in processing order, and those of them that decode.\<close>

definition matched :: "env \<Rightarrow> string \<Rightarrow> string \<Rightarrow> string list" where
  "matched e image_folder img_pattern = glob_glob e (os_path_join image_folder img_pattern)"

definition decoded :: "env \<Rightarrow> string list \<Rightarrow> image list" where
  "decoded e paths = concat (map (\<lambda>p. case imread e p of None \<Rightarrow> [] | Some img \<Rightarrow> [img]) paths)"

definition undecodable :: "env \<Rightarrow> string list \<Rightarrow> string list" where
  "undecodable e paths = filter (\<lambda>p. imread e p = None) paths"

definition turn :: "bool \<Rightarrow> image \<Rightarrow> image" where
  "turn rotate_on img = (if rotate_on then rotate_90_counterclockwise img else img)"

subsection \<open>Example folders\<close>

text \<open>Two tiny images: \<open>wide\<close> is 1 row of 2 pixels, \<open>tall\<close> is 2 rows of 1 pixel.\<close>

definition wide :: image where
  "wide = [[[1, 2, 3], [4, 5, 6]]]"

definition tall :: image where
  "tall = [[[7, 8, 9]], [[10, 11, 12]]]"

definition wide2 :: image where
  "wide2 = [[[9, 9, 9], [0, 0, 0]]]"

definition folder :: "string list \<Rightarrow> (string \<times> image) list \<Rightarrow> env" where
  "folder listing files =
     \<lparr>glob_glob = (\<lambda>pat. if pat = ''d/*.png'' then listing else []),
      imread = map_of files\<rparr>"

text \<open>No file at all.\<close>

definition empty_folder :: env where
  "empty_folder = folder [] []"

text \<open>Three readable files, listed by glob in lexical order.\<close>

definition numbered_folder :: env where
  "numbered_folder =
     folder [''d/img1.png'', ''d/img10.png'', ''d/img2.png'']
       [(''d/img1.png'', wide), (''d/img2.png'', wide2), (''d/img10.png'', tall)]"

text \<open>The second file of two is corrupt.\<close>

definition corrupt_last :: env where
  "corrupt_last = folder [''d/a1.png'', ''d/a2.png''] [(''d/a1.png'', wide)]"

text \<open>The second file of three is corrupt.\<close>

definition corrupt_middle :: env where
  "corrupt_middle =
     folder [''d/a3.png'', ''d/a2.png'', ''d/a1.png'']
       [(''d/a1.png'', wide), (''d/a3.png'', wide2)]"

text \<open>The first file of two is corrupt.\<close>

definition corrupt_first :: env where
  "corrupt_first = folder [''d/a1.png'', ''d/a2.png''] [(''d/a2.png'', wide)]"

text \<open>Two readable files of different sizes.\<close>

definition mixed_sizes :: env where
  "mixed_sizes = folder [''d/a1.png'', ''d/a2.png''] [(''d/a1.png'', wide), (''d/a2.png'', tall)]"

text \<open>A single readable file; the second folder has an unrelated file more on disk.\<close>

definition single :: env where
  "single = folder [''d/a1.png''] [(''d/a1.png'', wide)]"

definition single_and_notes :: env where
  "single_and_notes = folder [''d/a1.png''] [(''d/a1.png'', wide), (''d/notes.txt'', tall)]"

section \<open>Properties\<close>

subsection \<open>The natural sort\<close>

lemma natsorted_nil_iff: "natsorted xs = [] \<longleftrightarrow> xs = []"
  by (metis natsorted_def length_sort length_0_conv)

lemma length_natsorted: "length (natsorted xs) = length xs"
  by (simp add: natsorted_def)

lemma mset_natsorted: "mset (natsorted xs) = mset xs"
  by (simp add: natsorted_def)

lemma sorted_natsorted: "sorted (map natsort_key (natsorted ms))"
  by (simp add: natsorted_def)

lemma natsorted_single: "natsorted [x] = [x]"
  by (simp add: natsorted_def)

subsection \<open>Numbers in the natural key\<close>

text \<open>
  A name of the shape text, number, text has the key (text, [(value of the number, text)]), so
  two such names that differ in the number only are ordered by the numbers' values.
\<close>

lemma chunks_text:
  "list_all (\<lambda>c. \<not> is_digit c) pre \<Longrightarrow> foldr chunk pre (txt, runs) = (pre @ txt, runs)"
  by (induction pre) simp_all

lemma chunks_digits:
  "list_all is_digit ds \<Longrightarrow> ds \<noteq> [] \<Longrightarrow> txt \<noteq> [] \<or> runs = [] \<Longrightarrow>
   foldr chunk ds (txt, runs) = ([], (ds, txt) # runs)"
proof (induction ds)
  case Nil
  then show ?case by simp
next
  case (Cons c ds)
  show ?case
  proof (cases "ds = []")
    case True
    with Cons.prems show ?thesis
      by (auto split: list.splits)
  next
    case False
    with Cons have "foldr chunk ds (txt, runs) = ([], (ds, txt) # runs)"
      by simp
    with Cons.prems show ?thesis by simp
  qed
qed

lemma natsort_key_text_number_text:
  assumes "list_all (\<lambda>c. \<not> is_digit c) pre" and "list_all is_digit ds" and "ds \<noteq> []"
    and "list_all (\<lambda>c. \<not> is_digit c) suf"
  shows "natsort_key (pre @ ds @ suf) = (pre, [(number_of ds, suf)])"
proof -
  have "foldr chunk suf ([], []) = (suf, [])"
    using assms(4) by (simp add: chunks_text)
  moreover have "foldr chunk ds (suf, []) = ([], [(ds, suf)])"
    using assms(2,3) by (simp add: chunks_digits)
  moreover have "foldr chunk pre ([], [(ds, suf)]) = (pre, [(ds, suf)])"
    using assms(1) by (simp add: chunks_text)
  ultimately show ?thesis
    by (simp add: natsort_key_def chunks_def)
qed

lemma numbers_compare_by_value:
  assumes "list_all (\<lambda>c. \<not> is_digit c) pre" and "list_all (\<lambda>c. \<not> is_digit c) suf"
    and "list_all is_digit ds" and "ds \<noteq> []" and "list_all is_digit ds'" and "ds' \<noteq> []"
  shows "natsort_key (pre @ ds @ suf) < natsort_key (pre @ ds' @ suf)
           \<longleftrightarrow> number_of ds < number_of ds'"
  using assms by (simp add: natsort_key_text_number_text)

subsection \<open>Rotation\<close>

text \<open>
  The rotated image has the columns of the argument as rows, the last column first: pixel
  (i, j) of the result is pixel (j, width - 1 - i) of the argument.
\<close>

lemma width_of_alt: "width_of img = (if img = [] then 0 else length (hd img))"
  by (cases img) (simp_all add: width_of_def)

lemma width_rotate:
  assumes "0 < width_of img"
  shows "width_of (rotate_90_counterclockwise img) = height_of img"
proof -
  let ?cols = "map (column img) [0..<width_of img]"
  from assms have ne: "?cols \<noteq> []" by simp
  then have "hd (rev ?cols) = last ?cols" by (simp only: hd_rev)
  also have "\<dots> = column img (last [0..<width_of img])"
    using assms by (intro last_map) simp
  finally have "length (hd (rev ?cols)) = length img"
    by (simp add: column_def)
  with ne show ?thesis
    by (simp add: width_of_alt rotate_90_counterclockwise_def height_of_def)
qed

lemma height_rotate: "height_of (rotate_90_counterclockwise img) = width_of img"
  by (simp add: rotate_90_counterclockwise_def height_of_def)

lemma raster_width: "raster img \<Longrightarrow> 0 < width_of img"
  by (simp add: raster_def)

lemma rotate_pixel:
  assumes "i < width_of img" and "j < height_of img"
  shows "rotate_90_counterclockwise img ! i ! j = img ! j ! (width_of img - 1 - i)"
proof -
  have "rotate_90_counterclockwise img ! i = column img (width_of img - Suc i)"
    using assms(1) by (simp add: rotate_90_counterclockwise_def rev_nth)
  then show ?thesis
    using assms(2) by (simp add: column_def height_of_def)
qed

lemma width_turn:
  "width_of (turn r img) = (if r then (if width_of img = 0 then 0 else height_of img) else width_of img)"
  by (cases "width_of img = 0")
     (simp_all add: turn_def width_rotate, simp add: rotate_90_counterclockwise_def width_of_def)

lemma height_turn: "height_of (turn r img) = (if r then width_of img else height_of img)"
  by (simp add: turn_def height_rotate)

subsection \<open>What the loop writes and prints\<close>

lemma frames_add_images:
  "frames_written (add_images e r t i ps) = map (turn r) (decoded e ps)"
  by (induction ps arbitrary: i) (auto simp: frames_written_def decoded_def turn_def split: option.splits)

lemma warnings_add_images:
  "warnings (add_images e r t i ps) = undecodable e ps"
  by (induction ps arbitrary: i) (auto simp: warnings_def undecodable_def split: option.splits)

lemma progress_add_images:
  "progress (add_images e r t i ps) =
     map (\<lambda>(k, p). (k + 1, t))
       (filter (\<lambda>(k, p). imread e p \<noteq> None \<and> ((k + 1) mod 10 = 0 \<or> k + 1 = t)) (enumerate i ps))"
  by (induction ps arbitrary: i) (auto simp: progress_def split: option.splits)

lemma writers_add_images: "writers (add_images e r t i ps) = []"
  by (induction ps arbitrary: i) (auto simp: writers_def split: option.splits)

lemma release_add_images: "Release \<notin> set (add_images e r t i ps)"
  by (induction ps arbitrary: i) (auto split: option.splits)

lemma add_images_cong:
  "\<forall>q \<in> set ps. imread e1 q = imread e2 q \<Longrightarrow> add_images e1 r t i ps = add_images e2 r t i ps"
  by (induction ps arbitrary: i) (auto split: option.splits)

lemma length_decoded: "length (decoded e ps) = length (filter (\<lambda>q. imread e q \<noteq> None) ps)"
  by (induction ps) (auto simp: decoded_def split: option.splits)

lemma length_decoded_le: "length (decoded e ps) \<le> length ps"
  by (simp add: length_decoded)

lemma count_decoded_natsorted:
  "length (decoded e (natsorted ms)) = length (filter (\<lambda>q. imread e q \<noteq> None) ms)"
proof -
  have "mset (filter (\<lambda>q. imread e q \<noteq> None) (natsorted ms))
        = mset (filter (\<lambda>q. imread e q \<noteq> None) ms)"
    by (simp add: mset_natsorted)
  then show ?thesis
    by (metis length_decoded size_mset)
qed

lemma set_undecodable_natsorted:
  "set (undecodable e (natsorted ms)) = {q \<in> set ms. imread e q = None}"
  by (auto simp: undecodable_def natsorted_def)

subsection \<open>The three ways a run ends\<close>

text \<open>
  No match: the message and a return. A match whose first file does not decode: the exception,
  with no effect before it. Otherwise: the writer, the loop, the release, the completion message.
\<close>

lemma run_no_match:
  "matched e f p = [] \<Longrightarrow>
   create_video_from_images e f out fps p r = (Inr (), [Print (NoImagesFound f p)])"
  by (simp add: create_video_from_images_def matched_def)

lemma run_first_fails:
  "matched e f p \<noteq> [] \<Longrightarrow> imread e (natsorted (matched e f p) ! 0) = None \<Longrightarrow>
   create_video_from_images e f out fps p r = (Inl AttributeError, [])"
  by (simp add: create_video_from_images_def matched_def Let_def cv2_rotate_def)

lemma run_first_ok:
  "matched e f p \<noteq> [] \<Longrightarrow> imread e (natsorted (matched e f p) ! 0) = Some img \<Longrightarrow>
   create_video_from_images e f out fps p r =
     (Inr (),
      VideoWriter out (VideoWriter_fourcc ''mp4v'') fps (width_of (turn r img), height_of (turn r img))
      # add_images e r (length (matched e f p)) 0 (natsorted (matched e f p))
      @ [Release, Print (VideoSaved out)])"
  by (simp add: create_video_from_images_def matched_def Let_def shape_def turn_def length_natsorted
      cv2_rotate_def)

lemma run_ok:
  assumes "matched e f p \<noteq> []"
    and "imread e (natsorted (matched e f p) ! 0) = Some img"
    and "create_video_from_images e f out fps p r = (res, tr)"
  shows "res = Inr ()"
    and "tr = VideoWriter out (VideoWriter_fourcc ''mp4v'') fps
                (width_of (turn r img), height_of (turn r img))
              # add_images e r (length (matched e f p)) 0 (natsorted (matched e f p))
              @ [Release, Print (VideoSaved out)]"
  using run_first_ok [OF assms(1,2), of out fps r] assms(3) by simp_all

lemma run_ok_frames:
  assumes "matched e f p \<noteq> []"
    and "imread e (natsorted (matched e f p) ! 0) \<noteq> None"
    and "create_video_from_images e f out fps p r = (res, tr)"
  shows "frames_written tr = map (turn r) (decoded e (natsorted (matched e f p)))"
proof -
  from assms(2) obtain img where "imread e (natsorted (matched e f p) ! 0) = Some img"
    by blast
  from run_ok(2) [OF assms(1) this assms(3)] show ?thesis
    by (simp add: frames_written_def frames_add_images [unfolded frames_written_def])
qed

lemma run_ok_warnings:
  assumes "matched e f p \<noteq> []"
    and "imread e (natsorted (matched e f p) ! 0) \<noteq> None"
    and "create_video_from_images e f out fps p r = (res, tr)"
  shows "warnings tr = undecodable e (natsorted (matched e f p))"
proof -
  from assms(2) obtain img where "imread e (natsorted (matched e f p) ! 0) = Some img"
    by blast
  from run_ok(2) [OF assms(1) this assms(3)] show ?thesis
    by (simp add: warnings_def warnings_add_images [unfolded warnings_def])
qed

lemma run_ok_progress:
  assumes "matched e f p \<noteq> []"
    and "imread e (natsorted (matched e f p) ! 0) \<noteq> None"
    and "create_video_from_images e f out fps p r = (res, tr)"
  shows "progress tr =
     map (\<lambda>(k, q). (k + 1, length (matched e f p)))
       (filter (\<lambda>(k, q). imread e q \<noteq> None \<and> ((k + 1) mod 10 = 0 \<or> k + 1 = length (matched e f p)))
          (enumerate 0 (natsorted (matched e f p))))"
proof -
  from assms(2) obtain img where "imread e (natsorted (matched e f p) ! 0) = Some img"
    by blast
  from run_ok(2) [OF assms(1) this assms(3)] show ?thesis
    by (simp add: progress_def progress_add_images [unfolded progress_def])
qed

lemma length_frames:
  assumes "matched e f p \<noteq> []"
    and "imread e (natsorted (matched e f p) ! 0) \<noteq> None"
    and "create_video_from_images e f out fps p r = (res, tr)"
  shows "length (frames_written tr) = length (decoded e (natsorted (matched e f p)))"
  using run_ok_frames [OF assms] by simp

lemma final_progress_iff:
  assumes "xs \<noteq> []"
  shows "(length xs, length xs) \<in> set (map (\<lambda>(k, q). (k + 1, length xs))
            (filter (\<lambda>(k, q). P q \<and> ((k + 1) mod 10 = 0 \<or> k + 1 = length xs)) (enumerate 0 xs)))
         \<longleftrightarrow> P (last xs)"
proof
  assume "(length xs, length xs) \<in> set (map (\<lambda>(k, q). (k + 1, length xs))
            (filter (\<lambda>(k, q). P q \<and> ((k + 1) mod 10 = 0 \<or> k + 1 = length xs)) (enumerate 0 xs)))"
  then obtain k q where kq: "(k, q) \<in> set (enumerate 0 xs)" and "P q" and "k + 1 = length xs"
    by auto
  from kq have "q = xs ! k" by (simp add: in_set_enumerate_eq)
  with \<open>k + 1 = length xs\<close> assms have "q = last xs"
    by (metis add_diff_cancel_right' last_conv_nth)
  with \<open>P q\<close> show "P (last xs)" by simp
next
  assume P: "P (last xs)"
  from assms have "(length xs - 1, last xs) \<in> set (enumerate 0 xs)"
    by (simp add: in_set_enumerate_eq last_conv_nth)
  moreover from assms have "length xs - 1 + 1 = length xs" by simp
  ultimately have "(length xs - 1, last xs) \<in> set (filter (\<lambda>(k, q). P q \<and> ((k + 1) mod 10 = 0 \<or> k + 1 = length xs)) (enumerate 0 xs))"
    using P by simp
  then have "(\<lambda>(k, q). (k + 1, length xs)) (length xs - 1, last xs)
      \<in> (\<lambda>(k, q). (k + 1, length xs)) ` set (filter (\<lambda>(k, q). P q \<and> ((k + 1) mod 10 = 0 \<or> k + 1 = length xs)) (enumerate 0 xs))"
    by (rule imageI)
  with assms show "(length xs, length xs) \<in> set (map (\<lambda>(k, q). (k + 1, length xs))
            (filter (\<lambda>(k, q). P q \<and> ((k + 1) mod 10 = 0 \<or> k + 1 = length xs)) (enumerate 0 xs)))"
    by simp
qed

subsection \<open>The example folders\<close>

lemma matched_folder: "matched (folder listing files) ''d'' ''*.png'' = listing"
  by (simp add: matched_def folder_def os_path_join_def)

lemma imread_folder: "imread (folder listing files) = map_of files"
  by (simp add: folder_def)

lemma natsorted_a1_a2: "natsorted [''d/a1.png'', ''d/a2.png''] = [''d/a1.png'', ''d/a2.png'']"
  by code_simp

lemma natsorted_a3_a2_a1:
  "natsorted [''d/a3.png'', ''d/a2.png'', ''d/a1.png''] = [''d/a1.png'', ''d/a2.png'', ''d/a3.png'']"
  by code_simp

lemma natsorted_numbered:
  "natsorted [''d/img1.png'', ''d/img10.png'', ''d/img2.png'']
     = [''d/img1.png'', ''d/img2.png'', ''d/img10.png'']"
  by code_simp

lemma raster_examples: "raster wide" "raster wide2" "raster tall"
  by (simp_all add: raster_def wide_def wide2_def tall_def width_of_def)

lemma matched_numbered:
  "matched numbered_folder ''d'' ''*.png'' = [''d/img1.png'', ''d/img10.png'', ''d/img2.png'']"
  by (simp add: numbered_folder_def matched_folder)

lemma first_numbered:
  "imread numbered_folder (natsorted (matched numbered_folder ''d'' ''*.png'') ! 0) = Some wide"
  by (simp add: matched_numbered natsorted_numbered) (simp add: numbered_folder_def imread_folder)

lemma decoded_numbered:
  "decoded numbered_folder [''d/img1.png'', ''d/img2.png'', ''d/img10.png''] = [wide, wide2, tall]"
  by (simp add: decoded_def numbered_folder_def imread_folder)

lemma run_corrupt_first:
  "create_video_from_images corrupt_first ''d'' out fps ''*.png'' r
     = (Inl AttributeError, [])"
  by (rule run_first_fails)
     (simp_all add: corrupt_first_def matched_folder imread_folder natsorted_a1_a2)

lemma matched_mixed: "matched mixed_sizes ''d'' ''*.png'' = [''d/a1.png'', ''d/a2.png'']"
  by (simp add: mixed_sizes_def matched_folder)

lemma first_mixed:
  "imread mixed_sizes (natsorted (matched mixed_sizes ''d'' ''*.png'') ! 0) = Some wide"
  by (simp add: matched_mixed natsorted_a1_a2) (simp add: mixed_sizes_def imread_folder)

lemma decoded_mixed: "decoded mixed_sizes [''d/a1.png'', ''d/a2.png''] = [wide, tall]"
  by (simp add: decoded_def mixed_sizes_def imread_folder)

lemma frames_mixed:
  "frames_written (snd (create_video_from_images mixed_sizes ''d'' out fps ''*.png'' False))
     = [wide, tall]"
proof -
  have "matched mixed_sizes ''d'' ''*.png'' \<noteq> []"
    by (simp add: matched_mixed)
  moreover have "imread mixed_sizes (natsorted (matched mixed_sizes ''d'' ''*.png'') ! 0) \<noteq> None"
    by (simp add: first_mixed)
  ultimately have "frames_written (snd (create_video_from_images mixed_sizes ''d'' out fps ''*.png'' False))
      = map (turn False) (decoded mixed_sizes (natsorted (matched mixed_sizes ''d'' ''*.png'')))"
    using surjective_pairing by (rule run_ok_frames)
  then show ?thesis
    by (simp add: matched_mixed natsorted_a1_a2 decoded_mixed turn_def)
qed

lemma matched_corrupt_last: "matched corrupt_last ''d'' ''*.png'' = [''d/a1.png'', ''d/a2.png'']"
  by (simp add: corrupt_last_def matched_folder)

lemma first_corrupt_last:
  "imread corrupt_last (natsorted (matched corrupt_last ''d'' ''*.png'') ! 0) = Some wide"
  by (simp add: matched_corrupt_last natsorted_a1_a2) (simp add: corrupt_last_def imread_folder)

lemma progress_corrupt_last:
  "progress (snd (create_video_from_images corrupt_last ''d'' out fps ''*.png'' r)) = []"
proof -
  have "matched corrupt_last ''d'' ''*.png'' \<noteq> []"
    by (simp add: matched_corrupt_last)
  moreover have "imread corrupt_last (natsorted (matched corrupt_last ''d'' ''*.png'') ! 0) \<noteq> None"
    by (simp add: first_corrupt_last)
  ultimately have "progress (snd (create_video_from_images corrupt_last ''d'' out fps ''*.png'' r)) =
     map (\<lambda>(k, q). (k + 1, length (matched corrupt_last ''d'' ''*.png'')))
       (filter (\<lambda>(k, q). imread corrupt_last q \<noteq> None
            \<and> ((k + 1) mod 10 = 0 \<or> k + 1 = length (matched corrupt_last ''d'' ''*.png'')))
          (enumerate 0 (natsorted (matched corrupt_last ''d'' ''*.png''))))"
    using surjective_pairing by (rule run_ok_progress)
  then show ?thesis
    by (simp add: matched_corrupt_last natsorted_a1_a2) (simp add: corrupt_last_def imread_folder)
qed

section \<open>The claims\<close>

text \<open>
  C2. When no file matches the pattern, the function prints the "no images found" message and
  returns; that trace holds no creation of a video writer, so no output file is made. It is the
  only early return: a run on a folder with a match that returns has created the writer,
  released it and printed the completion message.
\<close>

theorem no_match_early_return:
  "(matched e f p = [] \<longrightarrow>
      create_video_from_images e f out fps p r = (Inr (), [Print (NoImagesFound f p)])) \<and>
   (matched e f p \<noteq> [] \<longrightarrow> fst (create_video_from_images e f out fps p r) = Inr () \<longrightarrow>
      (\<exists>dims body. snd (create_video_from_images e f out fps p r) =
          VideoWriter out (VideoWriter_fourcc ''mp4v'') fps dims # body
          @ [Release, Print (VideoSaved out)]))"
proof (intro conjI impI)
  assume "matched e f p = []"
  then show "create_video_from_images e f out fps p r = (Inr (), [Print (NoImagesFound f p)])"
    by (rule run_no_match)
next
  assume ne: "matched e f p \<noteq> []"
    and ok: "fst (create_video_from_images e f out fps p r) = Inr ()"
  show "\<exists>dims body. snd (create_video_from_images e f out fps p r) =
          VideoWriter out (VideoWriter_fourcc ''mp4v'') fps dims # body
          @ [Release, Print (VideoSaved out)]"
  proof (cases "imread e (natsorted (matched e f p) ! 0)")
    case None
    with ne ok show ?thesis by (simp add: run_first_fails)
  next
    case (Some img)
    with ne show ?thesis by (simp add: run_first_ok)
  qed
qed

theorem no_match_early_return_witness:
  "create_video_from_images empty_folder ''d'' ''out.mp4'' 30 ''*.png'' True
     = (Inr (), [Print (NoImagesFound ''d'' ''*.png'')]) \<and>
   (\<exists>dims body. snd (create_video_from_images single ''d'' ''out.mp4'' 30 ''*.png'' True) =
          VideoWriter ''out.mp4'' (VideoWriter_fourcc ''mp4v'') 30 dims # body
          @ [Release, Print (VideoSaved ''out.mp4'')])"
proof -
  have a: "matched empty_folder ''d'' ''*.png'' = []"
    by (simp add: empty_folder_def matched_folder)
  have b: "matched single ''d'' ''*.png'' \<noteq> []"
    by (simp add: single_def matched_folder)
  have c: "fst (create_video_from_images single ''d'' ''out.mp4'' 30 ''*.png'' True) = Inr ()"
    by (simp add: create_video_from_images_def single_def folder_def os_path_join_def
        natsorted_single Let_def shape_def cv2_rotate_def)
  show ?thesis
    using no_match_early_return [of empty_folder "''d''" "''*.png''" "''out.mp4''" 30 True]
      no_match_early_return [of single "''d''" "''*.png''" "''out.mp4''" 30 True] a b c
    by simp
qed



text \<open>
  C1 (amended). In every run with a match whose first file in natural-sort order decodes, the
  function returns, the frames written are the decodable matched files in processing order
  (rotated when rotation is on), so their number is the number of matched files that decode;
  the warnings name exactly the matched files that do not decode, each skipped without a
  frame, and the files after it are still processed.
\<close>

theorem frames_are_decoded_files:
  assumes "matched e f p \<noteq> []"
    and "imread e (natsorted (matched e f p) ! 0) \<noteq> None"
    and "create_video_from_images e f out fps p r = (res, tr)"
  shows "res = Inr () \<and>
    frames_written tr = map (turn r) (decoded e (natsorted (matched e f p))) \<and>
    length (frames_written tr) = length (filter (\<lambda>q. imread e q \<noteq> None) (matched e f p)) \<and>
    warnings tr = undecodable e (natsorted (matched e f p)) \<and>
    set (warnings tr) = {q \<in> set (matched e f p). imread e q = None}"
proof -
  from assms(2) obtain img where img: "imread e (natsorted (matched e f p) ! 0) = Some img"
    by blast
  from run_first_ok [OF assms(1) img, of out fps r] assms(3)
  have res: "res = Inr ()"
    and tr: "tr = VideoWriter out (VideoWriter_fourcc ''mp4v'') fps
                    (width_of (turn r img), height_of (turn r img))
                  # add_images e r (length (matched e f p)) 0 (natsorted (matched e f p))
                  @ [Release, Print (VideoSaved out)]"
    by simp_all
  have fr: "frames_written tr = map (turn r) (decoded e (natsorted (matched e f p)))"
    unfolding tr by (simp add: frames_written_def frames_add_images [unfolded frames_written_def])
  have wa: "warnings tr = undecodable e (natsorted (matched e f p))"
    unfolding tr by (simp add: warnings_def warnings_add_images [unfolded warnings_def])
  show ?thesis
    using res fr wa by (simp add: count_decoded_natsorted set_undecodable_natsorted)
qed

text \<open>
  C1, as stated for every run with a match, fails when the first file is the corrupt one: the
  run stops with the exception, nothing is written, yet one matched file decodes.
\<close>

theorem frames_fewer_than_decodable_files:
  "matched corrupt_first ''d'' ''*.png'' \<noteq> [] \<and>
   length (frames_written (snd (create_video_from_images corrupt_first ''d'' ''out.mp4'' 30 ''*.png'' True)))
     \<noteq> length (filter (\<lambda>q. imread corrupt_first q \<noteq> None) (matched corrupt_first ''d'' ''*.png''))"
  by (simp add: run_corrupt_first frames_written_def)
     (simp add: corrupt_first_def matched_folder imread_folder)

theorem frames_are_decoded_files_witness:
  "fst (create_video_from_images corrupt_middle ''d'' ''out.mp4'' 30 ''*.png'' False) = Inr () \<and>
   frames_written (snd (create_video_from_images corrupt_middle ''d'' ''out.mp4'' 30 ''*.png'' False))
     = [wide, wide2] \<and>
   warnings (snd (create_video_from_images corrupt_middle ''d'' ''out.mp4'' 30 ''*.png'' False))
     = [''d/a2.png'']"
proof -
  have m: "matched corrupt_middle ''d'' ''*.png'' = [''d/a3.png'', ''d/a2.png'', ''d/a1.png'']"
    by (simp add: corrupt_middle_def matched_folder)
  have h1: "matched corrupt_middle ''d'' ''*.png'' \<noteq> []"
    by (simp add: m)
  have h2: "imread corrupt_middle (natsorted (matched corrupt_middle ''d'' ''*.png'') ! 0) \<noteq> None"
    by (simp add: m natsorted_a3_a2_a1) (simp add: corrupt_middle_def imread_folder)
  have d: "decoded corrupt_middle [''d/a1.png'', ''d/a2.png'', ''d/a3.png''] = [wide, wide2]"
    by (simp add: decoded_def corrupt_middle_def imread_folder)
  have u: "undecodable corrupt_middle [''d/a1.png'', ''d/a2.png'', ''d/a3.png''] = [''d/a2.png'']"
    by (simp add: undecodable_def corrupt_middle_def imread_folder)
  show ?thesis
    using frames_are_decoded_files [OF h1 h2 surjective_pairing, of "''out.mp4''" 30 False]
    by (simp add: m natsorted_a3_a2_a1 d u turn_def)
qed

text \<open>
  C3. The loop runs over the naturally sorted list: the frames and the warnings follow the
  order of \<open>natsorted\<close>, which is a permutation of the matches sorted by the natural key.
  In that key a digit run counts by its value: two names that differ in one number compare
  as the numbers do; so img1.png, img10.png, img2.png are processed as img1, img2, img10.
\<close>

theorem files_processed_in_natural_order:
  assumes "matched e f p \<noteq> []"
    and "imread e (natsorted (matched e f p) ! 0) \<noteq> None"
    and "create_video_from_images e f out fps p r = (res, tr)"
    and "list_all (\<lambda>c. \<not> is_digit c) pre" and "list_all (\<lambda>c. \<not> is_digit c) suf"
    and "list_all is_digit ds" and "ds \<noteq> []" and "list_all is_digit ds'" and "ds' \<noteq> []"
  shows "frames_written tr = map (turn r) (decoded e (natsorted (matched e f p))) \<and>
    warnings tr = undecodable e (natsorted (matched e f p)) \<and>
    sorted (map natsort_key (natsorted (matched e f p))) \<and>
    mset (natsorted (matched e f p)) = mset (matched e f p) \<and>
    (natsort_key (pre @ ds @ suf) < natsort_key (pre @ ds' @ suf)
       \<longleftrightarrow> number_of ds < number_of ds') \<and>
    natsorted [''img1.png'', ''img10.png'', ''img2.png'']
       = [''img1.png'', ''img2.png'', ''img10.png'']"
proof (intro conjI)
  show "frames_written tr = map (turn r) (decoded e (natsorted (matched e f p)))"
    using assms(1-3) by (rule run_ok_frames)
  show "warnings tr = undecodable e (natsorted (matched e f p))"
    using assms(1-3) by (rule run_ok_warnings)
  show "sorted (map natsort_key (natsorted (matched e f p)))"
    by (rule sorted_natsorted)
  show "mset (natsorted (matched e f p)) = mset (matched e f p)"
    by (rule mset_natsorted)
  show "natsort_key (pre @ ds @ suf) < natsort_key (pre @ ds' @ suf)
           \<longleftrightarrow> number_of ds < number_of ds'"
    using assms(4-9) by (rule numbers_compare_by_value)
  show "natsorted [''img1.png'', ''img10.png'', ''img2.png'']
           = [''img1.png'', ''img2.png'', ''img10.png'']"
    by code_simp
qed

theorem files_processed_in_natural_order_witness:
  "frames_written (snd (create_video_from_images numbered_folder ''d'' ''out.mp4'' 30 ''*.png'' False))
     = [wide, wide2, tall] \<and>
   natsort_key ''img2.png'' < natsort_key ''img10.png''"
proof -
  have h1: "matched numbered_folder ''d'' ''*.png'' \<noteq> []"
    by (simp add: matched_numbered)
  have h2: "imread numbered_folder (natsorted (matched numbered_folder ''d'' ''*.png'') ! 0) \<noteq> None"
    by (simp add: first_numbered)
  have h4: "list_all (\<lambda>c. \<not> is_digit c) ''img''" by code_simp
  have h5: "list_all (\<lambda>c. \<not> is_digit c) ''.png''" by code_simp
  have h6: "list_all is_digit ''2''" by code_simp
  have h7: "''2'' \<noteq> []" by simp
  have h8: "list_all is_digit ''10''" by code_simp
  have h9: "''10'' \<noteq> []" by simp
  have n: "number_of ''2'' < number_of ''10''" by code_simp
  show ?thesis
    using files_processed_in_natural_order
      [OF h1 h2 surjective_pairing h4 h5 h6 h7 h8 h9, where out = "''out.mp4''" and fps = 30 and r = False]
      n
    by (simp add: matched_numbered natsorted_numbered decoded_numbered turn_def)
qed

text \<open>
  C4. The k-th frame written comes from the k-th decodable file in processing order. With
  rotation on it is that image rotated by 90 degrees counterclockwise, and for a raster its
  width is the image's height and its height the image's width; with rotation off it is the
  image itself.
\<close>

theorem rotation_of_every_frame:
  assumes "matched e f p \<noteq> []"
    and "imread e (natsorted (matched e f p) ! 0) \<noteq> None"
    and "create_video_from_images e f out fps p r = (res, tr)"
    and "k < length (frames_written tr)"
    and "inp = decoded e (natsorted (matched e f p)) ! k"
  shows "k < length (decoded e (natsorted (matched e f p))) \<and>
    (r \<longrightarrow> frames_written tr ! k = rotate_90_counterclockwise inp \<and>
       (raster inp \<longrightarrow> width_of (frames_written tr ! k) = height_of inp \<and>
                        height_of (frames_written tr ! k) = width_of inp)) \<and>
    (\<not> r \<longrightarrow> frames_written tr ! k = inp \<and>
       width_of (frames_written tr ! k) = width_of inp \<and>
       height_of (frames_written tr ! k) = height_of inp)"
proof -
  have fr: "frames_written tr = map (turn r) (decoded e (natsorted (matched e f p)))"
    using assms(1-3) by (rule run_ok_frames)
  with assms(4) have k: "k < length (decoded e (natsorted (matched e f p)))"
    by simp
  then have "frames_written tr ! k = turn r inp"
    by (simp add: fr assms(5))
  with k show ?thesis
    by (simp add: turn_def width_rotate height_rotate raster_width)
qed

theorem rotation_of_every_frame_witness:
  "frames_written (snd (create_video_from_images numbered_folder ''d'' ''out.mp4'' 30 ''*.png'' True)) ! 2
     = rotate_90_counterclockwise tall \<and>
   width_of (frames_written (snd (create_video_from_images numbered_folder ''d'' ''out.mp4'' 30 ''*.png'' True)) ! 2)
     = height_of tall \<and>
   frames_written (snd (create_video_from_images numbered_folder ''d'' ''out.mp4'' 30 ''*.png'' False)) ! 2
     = tall"
proof -
  have h1: "matched numbered_folder ''d'' ''*.png'' \<noteq> []"
    by (simp add: matched_numbered)
  have h2: "imread numbered_folder (natsorted (matched numbered_folder ''d'' ''*.png'') ! 0) \<noteq> None"
    by (simp add: first_numbered)
  have h4: "2 < length (frames_written (snd (create_video_from_images numbered_folder ''d'' ''out.mp4'' 30 ''*.png'' b)))"
    for b
    using length_frames [OF h1 h2 surjective_pairing, of "''out.mp4''" 30 b]
    by (simp add: matched_numbered natsorted_numbered decoded_numbered)
  have h5: "tall = decoded numbered_folder (natsorted (matched numbered_folder ''d'' ''*.png'')) ! 2"
    by (simp add: matched_numbered natsorted_numbered decoded_numbered)
  from rotation_of_every_frame [OF h1 h2 surjective_pairing h4 h5, of True] raster_examples(3)
  have a: "frames_written (snd (create_video_from_images numbered_folder ''d'' ''out.mp4'' 30 ''*.png'' True)) ! 2
     = rotate_90_counterclockwise tall"
    and b: "width_of (frames_written (snd (create_video_from_images numbered_folder ''d'' ''out.mp4'' 30 ''*.png'' True)) ! 2)
     = height_of tall"
    by blast+
  from rotation_of_every_frame [OF h1 h2 surjective_pairing h4 h5, of False]
  have c: "frames_written (snd (create_video_from_images numbered_folder ''d'' ''out.mp4'' 30 ''*.png'' False)) ! 2
     = tall"
    by blast
  from a b c show ?thesis by blast
qed

text \<open>
  C6. With a match, when the first file in natural-sort order decodes, the dimension
  extraction does not fault, the function returns, and the first effect of the run is the
  creation of the writer with the width and height of that image after the optional rotation
  (for a raster: height and width swapped when rotation is on); when the first file does not
  decode, the dimension extraction raises \<open>AttributeError\<close>, with rotation on or off, before
  any effect, so before any frame is written.
\<close>

theorem writer_dimensions_from_first_image:
  assumes "matched e f p \<noteq> []"
    and "create_video_from_images e f out fps p r = (res, tr)"
    and "first = imread e (natsorted (matched e f p) ! 0)"
  shows "(\<forall>img. first = Some img \<longrightarrow>
            res = Inr () \<and>
            hd tr = VideoWriter out (VideoWriter_fourcc ''mp4v'') fps
                      (width_of (turn r img), height_of (turn r img)) \<and>
            writers tr = [(width_of (turn r img), height_of (turn r img))] \<and>
            (raster img \<longrightarrow> (width_of (turn r img), height_of (turn r img))
                = (if r then (height_of img, width_of img) else (width_of img, height_of img)))) \<and>
         (first = None \<longrightarrow>
            res = Inl AttributeError \<and> tr = [] \<and> frames_written tr = [])"
proof (intro conjI allI impI)
  fix img assume "first = Some img"
  then have img: "imread e (natsorted (matched e f p) ! 0) = Some img"
    by (simp add: assms(3))
  note tr = run_ok(2) [OF assms(1) img assms(2)]
  show "res = Inr ()"
    using assms(1) img assms(2) by (rule run_ok(1))
  show "hd tr = VideoWriter out (VideoWriter_fourcc ''mp4v'') fps
                      (width_of (turn r img), height_of (turn r img))"
    by (simp add: tr)
  show "writers tr = [(width_of (turn r img), height_of (turn r img))]"
    by (simp add: tr writers_def writers_add_images [unfolded writers_def])
  assume "raster img"
  then show "(width_of (turn r img), height_of (turn r img))
                = (if r then (height_of img, width_of img) else (width_of img, height_of img))"
    by (simp add: turn_def width_rotate height_rotate raster_width)
next
  assume "first = None"
  then have "create_video_from_images e f out fps p r
               = (Inl AttributeError, [])"
    using assms(1,3) by (simp add: run_first_fails)
  with assms(2) have a: "res = Inl AttributeError" and b: "tr = []"
    by simp_all
  from a show "res = Inl AttributeError" .
  from b show "tr = []" .
  from b show "frames_written tr = []" by (simp add: frames_written_def)
qed

theorem writer_dimensions_from_first_image_witness:
  "fst (create_video_from_images numbered_folder ''d'' ''out.mp4'' 30 ''*.png'' True) = Inr () \<and>
   writers (snd (create_video_from_images numbered_folder ''d'' ''out.mp4'' 30 ''*.png'' True))
     = [(1, 2)] \<and>
   create_video_from_images corrupt_first ''d'' ''out.mp4'' 30 ''*.png'' True = (Inl AttributeError, [])"
proof -
  have h1: "matched numbered_folder ''d'' ''*.png'' \<noteq> []"
    by (simp add: matched_numbered)
  have g1: "matched corrupt_first ''d'' ''*.png'' \<noteq> []"
    by (simp add: corrupt_first_def matched_folder)
  have g2: "imread corrupt_first (natsorted (matched corrupt_first ''d'' ''*.png'') ! 0) = None"
    by (simp add: corrupt_first_def matched_folder imread_folder natsorted_a1_a2)
  have w: "height_of wide = 1" "width_of wide = 2"
    by (simp_all add: wide_def height_of_def width_of_def)
  show ?thesis
    using writer_dimensions_from_first_image [OF h1 surjective_pairing refl, of "''out.mp4''" 30 True]
      writer_dimensions_from_first_image [OF g1 surjective_pairing refl, of "''out.mp4''" 30 True]
      first_numbered g2 raster_examples(1) w
    by (simp add: prod_eq_iff)
qed

text \<open>
  C7 (amended). The writer is created once, with the width and height of the first processed
  (and possibly rotated) image. No frame is checked against them: every decodable file is
  written whatever its size. The frames written have the writer's width and height when
  every decodable matched file has the width and height of the first one.
\<close>

theorem writer_dimensions_fixed_once:
  assumes "matched e f p \<noteq> []"
    and "imread e (natsorted (matched e f p) ! 0) = Some img0"
    and "create_video_from_images e f out fps p r = (res, tr)"
    and "dims = (width_of (turn r img0), height_of (turn r img0))"
  shows "writers tr = [dims] \<and>
    frames_written tr = map (turn r) (decoded e (natsorted (matched e f p))) \<and>
    (list_all (\<lambda>img. width_of img = width_of img0 \<and> height_of img = height_of img0)
        (decoded e (natsorted (matched e f p)))
      \<longrightarrow> list_all (\<lambda>fr. (width_of fr, height_of fr) = dims) (frames_written tr))"
proof -
  note tr = run_ok(2) [OF assms(1-3)]
  have w: "writers tr = [dims]"
    by (simp add: tr assms(4) writers_def writers_add_images [unfolded writers_def])
  have fr: "frames_written tr = map (turn r) (decoded e (natsorted (matched e f p)))"
    using assms(1) _ assms(3) by (rule run_ok_frames) (simp add: assms(2))
  have "list_all (\<lambda>fr. (width_of fr, height_of fr) = dims) (map (turn r) imgs)"
    if "list_all (\<lambda>img. width_of img = width_of img0 \<and> height_of img = height_of img0) imgs"
    for imgs
    using that by (induction imgs) (simp_all add: assms(4) width_turn height_turn)
  with w fr show ?thesis by simp
qed

theorem writer_dimensions_fixed_once_witness:
  "writers (snd (create_video_from_images corrupt_middle ''d'' ''out.mp4'' 30 ''*.png'' True))
     = [(1, 2)] \<and>
   list_all (\<lambda>fr. (width_of fr, height_of fr) = (1, 2))
     (frames_written (snd (create_video_from_images corrupt_middle ''d'' ''out.mp4'' 30 ''*.png'' True)))"
proof -
  have m: "matched corrupt_middle ''d'' ''*.png'' = [''d/a3.png'', ''d/a2.png'', ''d/a1.png'']"
    by (simp add: corrupt_middle_def matched_folder)
  have h1: "matched corrupt_middle ''d'' ''*.png'' \<noteq> []"
    by (simp add: m)
  have h2: "imread corrupt_middle (natsorted (matched corrupt_middle ''d'' ''*.png'') ! 0) = Some wide"
    by (simp add: m natsorted_a3_a2_a1) (simp add: corrupt_middle_def imread_folder)
  have d: "decoded corrupt_middle [''d/a1.png'', ''d/a2.png'', ''d/a3.png''] = [wide, wide2]"
    by (simp add: decoded_def corrupt_middle_def imread_folder)
  have w: "height_of wide = 1" "width_of wide = 2" "height_of wide2 = 1" "width_of wide2 = 2"
    by (simp_all add: wide_def wide2_def height_of_def width_of_def)
  have t: "width_of (turn True wide) = 1" "height_of (turn True wide) = 2"
    by (simp_all add: width_turn height_turn w)
  have h3: "list_all (\<lambda>img. width_of img = width_of wide \<and> height_of img = height_of wide)
              (decoded corrupt_middle (natsorted (matched corrupt_middle ''d'' ''*.png'')))"
    by (simp add: m natsorted_a3_a2_a1 d w)
  from writer_dimensions_fixed_once [OF h1 h2 surjective_pairing refl, of "''out.mp4''" 30 True] h3
  have "writers (snd (create_video_from_images corrupt_middle ''d'' ''out.mp4'' 30 ''*.png'' True))
          = [(width_of (turn True wide), height_of (turn True wide))]"
    and "list_all (\<lambda>fr. (width_of fr, height_of fr) = (width_of (turn True wide), height_of (turn True wide)))
          (frames_written (snd (create_video_from_images corrupt_middle ''d'' ''out.mp4'' 30 ''*.png'' True)))"
    by blast+
  then show ?thesis
    by (simp only: t)
qed

text \<open>
  C7, as stated (every frame written has the same width and height), fails: with rotation off,
  a folder with a 2x1 image and a 1x2 image has both written, one after the other.
\<close>

theorem frames_of_different_sizes_written:
  "width_of (frames_written (snd (create_video_from_images mixed_sizes ''d'' ''out.mp4'' 30 ''*.png'' False)) ! 1)
     \<noteq> width_of (frames_written (snd (create_video_from_images mixed_sizes ''d'' ''out.mp4'' 30 ''*.png'' False)) ! 0)"
  by (simp add: frames_mixed) (simp add: wide_def tall_def width_of_def)

text \<open>
  C8. The run is a function of the parameters and of the folder's matched files and their
  contents only: two file systems that list the same matches for the pattern and decode each
  of them alike give the same outcome and the same trace, so the same frames in the same
  order.
\<close>

theorem same_folder_same_video:
  assumes "matched e1 f p = matched e2 f p"
    and "\<forall>q \<in> set (matched e1 f p). imread e1 q = imread e2 q"
  shows "create_video_from_images e1 f out fps p r = create_video_from_images e2 f out fps p r \<and>
    frames_written (snd (create_video_from_images e1 f out fps p r))
      = frames_written (snd (create_video_from_images e2 f out fps p r))"
proof -
  have "create_video_from_images e1 f out fps p r = create_video_from_images e2 f out fps p r"
  proof (cases "matched e1 f p = []")
    case True
    with assms(1) show ?thesis by (simp add: run_no_match)
  next
    case False
    then have ne2: "matched e2 f p \<noteq> []" by (simp add: assms(1))
    from False have "natsorted (matched e1 f p) ! 0 \<in> set (natsorted (matched e1 f p))"
      by (simp add: length_natsorted)
    then have "natsorted (matched e1 f p) ! 0 \<in> set (matched e1 f p)"
      by (simp add: natsorted_def)
    with assms(2)
    have first: "imread e1 (natsorted (matched e1 f p) ! 0) = imread e2 (natsorted (matched e2 f p) ! 0)"
      by (simp add: assms(1))
    have loop: "add_images e1 r t 0 (natsorted (matched e1 f p))
                  = add_images e2 r t 0 (natsorted (matched e2 f p))" for t
      using assms(2) by (simp add: assms(1) [symmetric] add_images_cong natsorted_def)
    show ?thesis
    proof (cases "imread e1 (natsorted (matched e1 f p) ! 0)")
      case None
      with first False ne2 show ?thesis by (simp add: run_first_fails)
    next
      case (Some img)
      with first False ne2 loop show ?thesis by (simp add: run_first_ok assms(1))
    qed
  qed
  then show ?thesis by simp
qed

theorem same_folder_same_video_witness:
  "imread single ''d/notes.txt'' \<noteq> imread single_and_notes ''d/notes.txt'' \<and>
   create_video_from_images single ''d'' ''out.mp4'' 30 ''*.png'' True
     = create_video_from_images single_and_notes ''d'' ''out.mp4'' 30 ''*.png'' True"
proof -
  have h1: "matched single ''d'' ''*.png'' = matched single_and_notes ''d'' ''*.png''"
    by (simp add: single_def single_and_notes_def matched_folder)
  have h2: "\<forall>q \<in> set (matched single ''d'' ''*.png''). imread single q = imread single_and_notes q"
    by (simp add: single_def single_and_notes_def matched_folder imread_folder)
  have d: "imread single ''d/notes.txt'' \<noteq> imread single_and_notes ''d/notes.txt''"
    by (simp add: single_def single_and_notes_def imread_folder)
  from same_folder_same_video [OF h1 h2, of "''out.mp4''" 30 True] d show ?thesis
    by blast
qed

text \<open>
  C9 (amended). In a run with a match whose first file in natural-sort order decodes, the
  function returns and the trace ends with the release of the writer followed by the
  completion message; the release occurs once, and all frames are written before it.
\<close>

theorem release_once_then_completion:
  assumes "matched e f p \<noteq> []"
    and "imread e (natsorted (matched e f p) ! 0) \<noteq> None"
    and "create_video_from_images e f out fps p r = (res, tr)"
  shows "res = Inr () \<and>
    (\<exists>body. tr = body @ [Release, Print (VideoSaved out)] \<and> Release \<notin> set body \<and>
       frames_written body = frames_written tr) \<and>
    count_list tr Release = 1"
proof -
  from assms(2) obtain img where img: "imread e (natsorted (matched e f p) ! 0) = Some img"
    by blast
  note res = run_ok(1) [OF assms(1) img assms(3)]
  note tr = run_ok(2) [OF assms(1) img assms(3)]
  let ?body = "VideoWriter out (VideoWriter_fourcc ''mp4v'') fps
                 (width_of (turn r img), height_of (turn r img))
               # add_images e r (length (matched e f p)) 0 (natsorted (matched e f p))"
  have 1: "tr = ?body @ [Release, Print (VideoSaved out)]"
    by (simp add: tr)
  have 2: "Release \<notin> set ?body"
    by (simp add: release_add_images)
  have 3: "frames_written ?body = frames_written tr"
    by (simp add: 1 frames_written_def)
  from 2 have "count_list ?body Release = 0"
    by (rule count_notin)
  then have 4: "count_list tr Release = 1"
    by (simp add: 1)
  from 1 2 3 have "\<exists>body. tr = body @ [Release, Print (VideoSaved out)] \<and> Release \<notin> set body \<and>
          frames_written body = frames_written tr"
    by blast
  with res 4 show ?thesis by simp
qed

theorem release_once_then_completion_witness:
  "fst (create_video_from_images numbered_folder ''d'' ''out.mp4'' 30 ''*.png'' True) = Inr () \<and>
   (\<exists>body. snd (create_video_from_images numbered_folder ''d'' ''out.mp4'' 30 ''*.png'' True)
        = body @ [Release, Print (VideoSaved ''out.mp4'')] \<and> Release \<notin> set body) \<and>
   count_list (snd (create_video_from_images numbered_folder ''d'' ''out.mp4'' 30 ''*.png'' True)) Release = 1"
proof -
  have h1: "matched numbered_folder ''d'' ''*.png'' \<noteq> []"
    by (simp add: matched_numbered)
  have h2: "imread numbered_folder (natsorted (matched numbered_folder ''d'' ''*.png'') ! 0) \<noteq> None"
    by (simp add: first_numbered)
  from release_once_then_completion [OF h1 h2 surjective_pairing, of "''out.mp4''" 30 True]
  show ?thesis
    by blast
qed

text \<open>
  C9, as stated for every run with a match, fails when the first file is the corrupt one: the
  run stops with the exception, the writer is never released and no completion message is
  printed.
\<close>

theorem no_release_when_first_file_fails:
  "matched corrupt_first ''d'' ''*.png'' \<noteq> [] \<and>
   count_list (snd (create_video_from_images corrupt_first ''d'' ''out.mp4'' 30 ''*.png'' True)) Release = 0 \<and>
   Print (VideoSaved ''out.mp4'')
     \<notin> set (snd (create_video_from_images corrupt_first ''d'' ''out.mp4'' 30 ''*.png'' True))"
  by (simp add: run_corrupt_first) (simp add: corrupt_first_def matched_folder)

text \<open>
  C10 (amended). In a run that reaches the loop, a progress message (i+1)/total is printed
  exactly for the files that decode and whose 1-based position i+1 is a multiple of 10 or
  equals the total; position and total count all matched files, the skipped ones too, so the
  total is at least the number of frames written. The final message total/total is printed
  exactly when the last matched file decodes.
\<close>

theorem progress_for_decoded_files:
  assumes "matched e f p \<noteq> []"
    and "imread e (natsorted (matched e f p) ! 0) \<noteq> None"
    and "create_video_from_images e f out fps p r = (res, tr)"
    and "total_images = length (matched e f p)"
  shows "progress tr =
      map (\<lambda>(i, q). (i + 1, total_images))
        (filter (\<lambda>(i, q). imread e q \<noteq> None \<and> ((i + 1) mod 10 = 0 \<or> i + 1 = total_images))
           (enumerate 0 (natsorted (matched e f p)))) \<and>
    ((total_images, total_images) \<in> set (progress tr) \<longleftrightarrow> imread e (last (natsorted (matched e f p))) \<noteq> None) \<and>
    length (frames_written tr) \<le> total_images"
proof -
  let ?xs = "natsorted (matched e f p)"
  have len: "length ?xs = total_images" by (simp add: length_natsorted assms(4))
  have ne: "?xs \<noteq> []" using assms(1) by (simp add: natsorted_nil_iff)
  have pr: "progress tr =
      map (\<lambda>(i, q). (i + 1, total_images))
        (filter (\<lambda>(i, q). imread e q \<noteq> None \<and> ((i + 1) mod 10 = 0 \<or> i + 1 = total_images))
           (enumerate 0 ?xs))"
    using run_ok_progress [OF assms(1-3)] by (simp add: assms(4))
  have fin: "(total_images, total_images) \<in> set (progress tr) \<longleftrightarrow> imread e (last ?xs) \<noteq> None"
    using final_progress_iff [OF ne, of "\<lambda>q. imread e q \<noteq> None"]
    unfolding pr len .
  have "length (frames_written tr) = length (decoded e ?xs)"
    using assms(1-3) by (rule length_frames)
  also have "\<dots> \<le> length ?xs" by (rule length_decoded_le)
  finally have "length (frames_written tr) \<le> total_images" by (simp add: len)
  with pr fin show ?thesis by blast
qed

theorem progress_for_decoded_files_witness:
  "progress (snd (create_video_from_images numbered_folder ''d'' ''out.mp4'' 30 ''*.png'' True))
     = [(3, 3)]"
proof -
  have h1: "matched numbered_folder ''d'' ''*.png'' \<noteq> []"
    by (simp add: matched_numbered)
  have h2: "imread numbered_folder (natsorted (matched numbered_folder ''d'' ''*.png'') ! 0) \<noteq> None"
    by (simp add: first_numbered)
  have e: "enumerate 0 [''d/img1.png'', ''d/img2.png'', ''d/img10.png'']
             = [(0, ''d/img1.png''), (1, ''d/img2.png''), (2, ''d/img10.png'')]"
    by (simp add: enumerate_eq_zip upt_rec)
  from progress_for_decoded_files [OF h1 h2 surjective_pairing refl, of "''out.mp4''" 30 True]
  show ?thesis
    by (simp add: matched_numbered natsorted_numbered e) (simp add: numbered_folder_def imread_folder)
qed

text \<open>
  C10, as stated (a progress message at every position that is a multiple of 10 or the total,
  and always one at the last matched file), fails when the file at such a position does not
  decode: of two files with the second corrupt, no progress message is printed at all.
\<close>

theorem no_progress_for_skipped_last_file:
  "length (matched corrupt_last ''d'' ''*.png'') = 2 \<and>
   fst (create_video_from_images corrupt_last ''d'' ''out.mp4'' 30 ''*.png'' True) = Inr () \<and>
   progress (snd (create_video_from_images corrupt_last ''d'' ''out.mp4'' 30 ''*.png'' True)) = []"
proof -
  have "matched corrupt_last ''d'' ''*.png'' \<noteq> []"
    by (simp add: matched_corrupt_last)
  then have "fst (create_video_from_images corrupt_last ''d'' ''out.mp4'' 30 ''*.png'' True) = Inr ()"
    using first_corrupt_last surjective_pairing by (rule run_ok(1))
  then show ?thesis
    by (simp add: matched_corrupt_last progress_corrupt_last)
qed

end
